theory Spec2Isabelle
  imports Main
begin

section \<open>Faults\<close>

text \<open>
  Go panics are values of the model.  The sources can raise three: a write to a nil map
  (\<open>a.Meta[k] = v\<close> with \<open>a.Meta == nil\<close>), a field access through a nil pointer
  (\<open>c.Strategy.Name\<close> with \<open>c.Strategy == nil\<close>) and a failed type assertion
  (\<open>targetPlugin.Plugin().(targetpkg.Target)\<close> on another kind of plugin).  A function
  that can panic returns \<open>fault + 'a\<close>, with \<open>Inl\<close> for the panic.
\<close>

datatype fault = NilMapWrite | NilPointer | TypeAssertion

text \<open>Sequencing: a panic in the first step aborts the rest.\<close>

definition thenF :: "fault + 'a \<Rightarrow> ('a \<Rightarrow> fault + 'b) \<Rightarrow> fault + 'b" where
  "thenF x f = (case x of Inl e \<Rightarrow> Inl e | Inr v \<Rightarrow> f v)"

section \<open>Formatting of integers (\<open>%d\<close>)\<close>

fun digits :: "nat \<Rightarrow> string" where
  "digits n =
     (if n < 10 then [''0123456789'' ! n]
      else digits (n div 10) @ [''0123456789'' ! (n mod 10)])"

declare digits.simps [simp del]

definition fmtInt :: "int \<Rightarrow> string" where
  "fmtInt i = (if i < 0 then ''-'' @ digits (nat (- i)) else digits (nat i))"

section \<open>The Action model (package strategy)\<close>

text \<open>
  \<open>Count\<close> is an \<open>int64\<close> in the source.  No arithmetic is ever performed on a count
  (counts are only compared, copied and printed), so no wrap-around can arise and the
  model uses \<open>int\<close>; every theorem below holds in particular for all 64-bit values.

  \<open>Meta\<close> is a \<open>map[string]interface{}\<close>.  Its values are modelled by \<open>mval\<close>: the
  three dynamic types the package itself stores (\<open>bool\<close>, \<open>int64\<close>, \<open>[]string\<close>) and
  a string for whatever else a plugin may have put there.  A nil map is \<open>None\<close>:
  reading it gives the zero value, writing to it panics.
\<close>

datatype mval = MBool bool | MInt int | MStrings "string list" | MString string

type_synonym meta = "string \<rightharpoonup> mval"

record action =
  Count :: int
  Reason :: string
  Error :: bool
  Meta :: "meta option"

definition metaKeyDryRun :: string where
  "metaKeyDryRun = ''nomad_autoscaler.dry_run''"

definition metaKeyDryRunCount :: string where
  "metaKeyDryRunCount = ''nomad_autoscaler.dry_run.count''"

definition metaKeyCountCapped :: string where
  "metaKeyCountCapped = ''nomad_autoscaler.count.capped''"

definition metaKeyCountOriginal :: string where
  "metaKeyCountOriginal = ''nomad_autoscaler.count.original''"

definition metaKeyReasonHistory :: string where
  "metaKeyReasonHistory = ''nomad_autoscaler.reason_history''"

definition MetaValueDryRunCount :: int where
  "MetaValueDryRunCount = - 1"

text \<open>Reading a key of a possibly nil map: the \<open>v, ok := m[k]\<close> form.\<close>

definition metaGet :: "meta option \<Rightarrow> string \<Rightarrow> mval option" where
  "metaGet mo k = (case mo of None \<Rightarrow> None | Some m \<Rightarrow> m k)"

text \<open>Writing a key: \<open>a.Meta[k] = v\<close>; panics on a nil map.\<close>

definition metaSet :: "string \<Rightarrow> mval \<Rightarrow> action \<Rightarrow> fault + action" where
  "metaSet k v a =
     (case Meta a of
        None \<Rightarrow> Inl NilMapWrite
      | Some m \<Rightarrow> Inr (a\<lparr>Meta := Some (m(k \<mapsto> v))\<rparr>))"

definition Canonicalize :: "action \<Rightarrow> action" where
  "Canonicalize a = (if Meta a = None then a\<lparr>Meta := Some Map.empty\<rparr> else a)"

definition SetDryRun :: "action \<Rightarrow> fault + action" where
  "SetDryRun a =
     thenF (metaSet metaKeyDryRun (MBool True) a) (\<lambda>a1.
     thenF (metaSet metaKeyDryRunCount (MInt (Count a1)) a1) (\<lambda>a2.
     Inr (a2\<lparr>Count := MetaValueDryRunCount\<rparr>)))"

text \<open>
  \<open>pushReason\<close>: the history starts empty, is replaced by the stored one when
  \<open>Meta[reason_history]\<close> exists and holds a \<open>[]string\<close>, gets the current reason
  appended unless that is empty, is written back, and the reason is overwritten.
\<close>

definition pushReason :: "string \<Rightarrow> action \<Rightarrow> fault + action" where
  "pushReason r a =
     (let history = (case metaGet (Meta a) metaKeyReasonHistory of
                       Some (MStrings h) \<Rightarrow> h
                     | _ \<Rightarrow> []);
          history' = (if Reason a \<noteq> [] then history @ [Reason a] else history)
      in thenF (metaSet metaKeyReasonHistory (MStrings history') a) (\<lambda>a1.
         Inr (a1\<lparr>Reason := r\<rparr>)))"

definition cappedReason :: "int \<Rightarrow> int \<Rightarrow> string" where
  "cappedReason oldCount newCount =
     ''capped count from '' @ fmtInt oldCount @ '' to '' @ fmtInt newCount
       @ '' to stay within limits''"

definition CapCount :: "int \<Rightarrow> int \<Rightarrow> action \<Rightarrow> fault + action" where
  "CapCount mn mx a =
     (if Count a = MetaValueDryRunCount then Inr a
      else
        let oldCount = Count a;
            newCount = (if oldCount < mn then mn
                        else if oldCount > mx then mx else oldCount)
        in if newCount \<noteq> oldCount then
             thenF (metaSet metaKeyCountCapped (MBool True) a) (\<lambda>a1.
             thenF (metaSet metaKeyCountOriginal (MInt oldCount) a1) (\<lambda>a2.
             thenF (pushReason (cappedReason oldCount newCount) a2) (\<lambda>a3.
             Inr (a3\<lparr>Count := newCount\<rparr>))))
           else Inr a)"

text \<open>A sequence of \<open>pushReason\<close> calls, one per element, in order.\<close>

fun pushReasons :: "string list \<Rightarrow> action \<Rightarrow> fault + action" where
  "pushReasons [] a = Inr a"
| "pushReasons (r # rs) a = thenF (pushReason r a) (pushReasons rs)"

text \<open>The reason history an action carries (empty when there is none).\<close>

definition reasonHistory :: "action \<Rightarrow> string list" where
  "reasonHistory a =
     (case metaGet (Meta a) metaKeyReasonHistory of
        Some (MStrings h) \<Rightarrow> h
      | _ \<Rightarrow> [])"

text \<open>Observations of a possibly faulting result.\<close>

definition countOf :: "fault + action \<Rightarrow> int option" where
  "countOf x = (case x of Inl e \<Rightarrow> None | Inr a \<Rightarrow> Some (Count a))"

definition historyOf :: "fault + action \<Rightarrow> string list option" where
  "historyOf x = (case x of Inl e \<Rightarrow> None | Inr a \<Rightarrow> Some (reasonHistory a))"

definition reasonOf :: "fault + action \<Rightarrow> string option" where
  "reasonOf x = (case x of Inl e \<Rightarrow> None | Inr a \<Rightarrow> Some (Reason a))"

section \<open>Raw policy documents (\<open>interface{}\<close> values)\<close>

text \<open>
  The free-form part of an \<open>api.ScalingPolicy\<close> is a \<open>map[string]interface{}\<close>.
  The dynamic values that can occur in it are modelled by \<open>raw\<close>: nil, booleans,
  integers, strings, \<open>[]interface{}\<close> and \<open>map[string]interface{}\<close>.  Floating-point
  numbers are left out.  A Go map is an association list; \<open>map_of\<close> is the lookup, and
  a well-formed map has distinct keys.  The list order stands for the (unspecified)
  iteration order of \<open>range\<close>.
\<close>

datatype raw =
    RNil
  | RBool bool
  | RInt int
  | RStr string
  | RList "raw list"
  | RMap "(string \<times> raw) list"

type_synonym rawmap = "(string \<times> raw) list"

text \<open>\<open>m[k]\<close> as an interface value: nil when the key is absent (also on a nil map).\<close>

definition rawGet :: "rawmap \<Rightarrow> string \<Rightarrow> raw" where
  "rawGet m k = (case map_of m k of None \<Rightarrow> RNil | Some v \<Rightarrow> v)"

text \<open>The type assertion \<open>v.(string)\<close> in its \<open>s, ok := \<dots>\<close> form.\<close>

fun asString :: "raw \<Rightarrow> string option" where
  "asString (RStr s) = Some s"
| "asString _ = None"

text \<open>\<open>s, _ := v.(string)\<close>: the zero value when the assertion fails.\<close>

definition stringOrEmpty :: "raw \<Rightarrow> string" where
  "stringOrEmpty v = (case asString v of Some s \<Rightarrow> s | None \<Rightarrow> [])"

subsection \<open>\<open>fmt.Sprintf("%v", v)\<close>\<close>

fun strLess :: "string \<Rightarrow> string \<Rightarrow> bool" where
  "strLess [] [] = False"
| "strLess [] (y # ys) = True"
| "strLess (x # xs) [] = False"
| "strLess (x # xs) (y # ys) =
     ((of_char x :: nat) < of_char y \<or> (x = y \<and> strLess xs ys))"

fun insertKey :: "string \<times> string \<Rightarrow> (string \<times> string) list \<Rightarrow> (string \<times> string) list" where
  "insertKey kv [] = [kv]"
| "insertKey kv (x # xs) =
     (if strLess (fst x) (fst kv) then x # insertKey kv xs else kv # x # xs)"

definition sortKeys :: "(string \<times> string) list \<Rightarrow> (string \<times> string) list" where
  "sortKeys xs = foldr insertKey xs []"

fun joinWith :: "string \<Rightarrow> string list \<Rightarrow> string" where
  "joinWith sep [] = []"
| "joinWith sep [x] = x"
| "joinWith sep (x # y # ys) = x @ sep @ joinWith sep (y # ys)"

text \<open>
  The default format: a string prints as itself, a slice as \<open>[a b]\<close>, a map as
  \<open>map[k:v \<dots>]\<close> with its keys sorted.
\<close>

fun fmtV :: "raw \<Rightarrow> string" where
  "fmtV RNil = ''<nil>''"
| "fmtV (RBool b) = (if b then ''true'' else ''false'')"
| "fmtV (RInt i) = fmtInt i"
| "fmtV (RStr s) = s"
| "fmtV (RList xs) = ''['' @ joinWith '' '' (map fmtV xs) @ '']''"
| "fmtV (RMap kvs) =
     ''map['' @ joinWith '' ''
        (map (\<lambda>kv. fst kv @ '':'' @ snd kv)
           (sortKeys (map (\<lambda>kv. (fst kv, fmtV (snd kv))) kvs))) @ '']''"

section \<open>The policy model (package policy)\<close>

text \<open>
  The declarations of \<open>policy.Policy\<close>, \<open>policy.Check\<close>, \<open>policy.Target\<close> and
  \<open>policy.Strategy\<close> are in a file that is not at hand; the records follow the fields
  that the parser and the agent read and write.  A \<open>map[string]string\<close> that may be
  nil is an option.  \<open>Target\<close> and \<open>Strategy\<close> are pointers that the parser can leave
  nil, so they are options.  \<open>Checks\<close> is a slice of pointers to which the parser appends
  non-nil checks only; the model holds the checks themselves.  Durations are integers
  (nanoseconds).
\<close>

type_synonym config = "(string \<rightharpoonup> string) option"

record strategy =
  strategy_Name :: string
  strategy_Config :: config

record target =
  target_Name :: string
  target_Config :: config

record check =
  Name :: string
  Source :: string
  Query :: string
  Strategy :: "strategy option"

record policy =
  ID :: string
  policy_Min :: int
  policy_Max :: int
  Enabled :: bool
  EvaluationInterval :: int
  Cooldown :: int
  Target :: "target option"
  Checks :: "check list"

text \<open>
  \<open>api.ScalingPolicy\<close>, the raw document.  \<open>Min\<close>, \<open>Max\<close> and \<open>Enabled\<close> are
  pointers, as the validator dereferences them; \<open>Target\<close> is a \<open>map[string]string\<close>
  and \<open>Policy\<close> a \<open>map[string]interface{}\<close>.
\<close>

record ScalingPolicy =
  sp_ID :: string
  sp_Min :: "int option"
  sp_Max :: "int option"
  sp_Enabled :: "bool option"
  sp_Target :: "(string \<times> string) list option"
  sp_Policy :: rawmap

text \<open>
  Modelled from the spec: the key constants of package nomad (\<open>keyChecks\<close>,
  \<open>keyQuery\<close>, \<open>keySource\<close>, \<open>keyStrategy\<close>, \<open>keyTarget\<close>,
  \<open>keyEvaluationInterval\<close>, \<open>keyCooldown\<close>) are declared in a file of the package
  that is not at hand.  They name the entries of the raw document (the checks, the query
  of a check, and so on); no theorem depends on their spelling beyond their being
  different keys.
\<close>

definition keyChecks :: string where "keyChecks = ''check''"
definition keyQuery :: string where "keyQuery = ''query''"
definition keySource :: string where "keySource = ''source''"
definition keyStrategy :: string where "keyStrategy = ''strategy''"
definition keyTarget :: string where "keyTarget = ''target''"
definition keyEvaluationInterval :: string where "keyEvaluationInterval = ''evaluation_interval''"
definition keyCooldown :: string where "keyCooldown = ''cooldown''"

section \<open>The parser (package nomad)\<close>

fun parseBlock :: "raw \<Rightarrow> rawmap option" where
  "parseBlock (RList [RMap m]) = Some m"
| "parseBlock _ = None"

text \<open>The loop \<open>for k, v := range m { cfg[k] = f(v) }\<close> on a map \<open>cfg\<close>.\<close>

definition putAll :: "('v \<Rightarrow> string) \<Rightarrow> (string \<times> 'v) list \<Rightarrow> (string \<rightharpoonup> string) \<Rightarrow> (string \<rightharpoonup> string)" where
  "putAll f m cfg = fold (\<lambda>kv c. c(fst kv \<mapsto> f (snd kv))) m cfg"

definition parseStrategy :: "raw \<Rightarrow> strategy option" where
  "parseStrategy s =
     (if s = RNil then None
      else case parseBlock s of
        None \<Rightarrow> None
      | Some strategyMap \<Rightarrow>
          let configMapString =
                (case parseBlock (rawGet strategyMap ''config'') of
                   None \<Rightarrow> None
                 | Some configMap \<Rightarrow> Some (putAll fmtV configMap Map.empty));
              name = stringOrEmpty (rawGet strategyMap ''name'')
          in Some \<lparr>strategy_Name = name, strategy_Config = configMapString\<rparr>)"

definition parseTarget :: "raw \<Rightarrow> (string \<times> string) list option \<Rightarrow> target option" where
  "parseTarget targetBlock targetAttr =
     (let targetMap = parseBlock targetBlock
      in if targetMap = None \<and> targetAttr = None then None
         else
           let configMapString =
                 putAll id (case targetAttr of None \<Rightarrow> [] | Some m \<Rightarrow> m) Map.empty;
               configMapString =
                 (case targetMap of
                    None \<Rightarrow> configMapString
                  | Some tm \<Rightarrow>
                      (case parseBlock (rawGet tm ''config'') of
                         None \<Rightarrow> configMapString
                       | Some configMap \<Rightarrow> putAll fmtV configMap configMapString));
               name = stringOrEmpty (rawGet (case targetMap of None \<Rightarrow> [] | Some tm \<Rightarrow> tm) ''name'')
           in Some \<lparr>target_Name = name, target_Config = Some configMapString\<rparr>)"

definition parseCheck :: "raw \<Rightarrow> check option" where
  "parseCheck c =
     (if c = RNil then None
      else case parseBlock c of
        None \<Rightarrow> None
      | Some checkMap \<Rightarrow>
          let check = \<lparr>Name = [], Source = [], Query = [],
                       Strategy = parseStrategy (rawGet checkMap keyStrategy)\<rparr>;
              check = (case asString (rawGet checkMap keyQuery) of
                         Some query \<Rightarrow> check\<lparr>Query := query\<rparr>
                       | None \<Rightarrow> check);
              check = (case asString (rawGet checkMap keySource) of
                         Some source \<Rightarrow> check\<lparr>Source := source\<rparr>
                       | None \<Rightarrow> check)
          in Some check)"

text \<open>The inner loop of \<open>parseChecks\<close> over one map of labelled check blocks.\<close>

fun parseCheckMap :: "rawmap \<Rightarrow> check list" where
  "parseCheckMap [] = []"
| "parseCheckMap ((k, v) # rest) =
     (case parseCheck v of
        None \<Rightarrow> parseCheckMap rest
      | Some check \<Rightarrow> check\<lparr>Name := k\<rparr> # parseCheckMap rest)"

text \<open>The outer loop: elements that are not maps are skipped.\<close>

fun parseCheckList :: "raw list \<Rightarrow> check list" where
  "parseCheckList [] = []"
| "parseCheckList (RMap checkMap # rest) = parseCheckMap checkMap @ parseCheckList rest"
| "parseCheckList (_ # rest) = parseCheckList rest"

fun parseChecks :: "raw \<Rightarrow> check list" where
  "parseChecks (RList checkInterfaceList) = parseCheckList checkInterfaceList"
| "parseChecks _ = []"

text \<open>
  \<open>time.ParseDuration\<close> belongs to the Go library; the parser takes it as the
  parameter \<open>pd\<close> (\<open>None\<close> for a parse error, which leaves the zero duration).

  \<open>Max\<close> is copied through directly (\<open>Max: p.Max\<close>); the validator reads the same
  field through a pointer, so an absent \<open>Max\<close> is the zero value here.
\<close>

definition durationOrZero :: "(string \<Rightarrow> int option) \<Rightarrow> string \<Rightarrow> int" where
  "durationOrZero pd s = (case pd s of None \<Rightarrow> 0 | Some d \<Rightarrow> d)"

definition parsePolicy :: "(string \<Rightarrow> int option) \<Rightarrow> ScalingPolicy \<Rightarrow> policy" where
  "parsePolicy pd p =
     (let to = \<lparr>ID = sp_ID p,
                policy_Min = 0,
                policy_Max = (case sp_Max p of None \<Rightarrow> 0 | Some m \<Rightarrow> m),
                Enabled = True,
                EvaluationInterval = 0,
                Cooldown = 0,
                Target = parseTarget (rawGet (sp_Policy p) keyTarget) (sp_Target p),
                Checks = parseChecks (rawGet (sp_Policy p) keyChecks)\<rparr>;
          to = (case sp_Min p of None \<Rightarrow> to | Some m \<Rightarrow> to\<lparr>policy_Min := m\<rparr>);
          to = (case sp_Enabled p of None \<Rightarrow> to | Some e \<Rightarrow> to\<lparr>Enabled := e\<rparr>);
          to = (case asString (rawGet (sp_Policy p) keyEvaluationInterval) of
                  None \<Rightarrow> to
                | Some eval \<Rightarrow> to\<lparr>EvaluationInterval := durationOrZero pd eval\<rparr>);
          to = (case asString (rawGet (sp_Policy p) keyCooldown) of
                  None \<Rightarrow> to
                | Some cooldown \<Rightarrow> to\<lparr>Cooldown := durationOrZero pd cooldown\<rparr>)
      in to)"

section \<open>The validator (package nomad)\<close>

text \<open>
  A \<open>*multierror.Error\<close> is the list of the violations appended to it, in order; the
  empty list is \<open>nil\<close>.  \<open>Violation\<close> carries a message as \<open>fmt.Errorf\<close> builds it
  in \<open>validate_horizontal.go\<close>.  \<open>Shape\<close> stands for a violation reported by the
  helpers \<open>validateBlocks\<close> and \<open>validateLabeledBlocks\<close>, whose message texts are
  not at hand; it carries the path.
\<close>

datatype verror = Violation string | Shape string

type_synonym validator = "rawmap \<Rightarrow> string \<Rightarrow> verror list"

definition validateCheckHorizontal :: validator where
  "validateCheckHorizontal c path =
     (if map_of c keyQuery = None
      then [Violation (path @ ''.'' @ keyQuery @ '' is missing'')]
      else [])"

text \<open>
  Modelled from the spec: \<open>validateLabeledBlocks\<close> is declared in a file of the
  package that is not at hand.  Following 4.3 rule 4 ("expects the checks collection to
  contain at least one labeled block (lower bound 1, no upper bound); for every check
  entry, require \<dots>") and the call
  \<open>validateLabeledBlocks(in, path, ptr.IntToPtr(1), nil, validateCheckHorizontal)\<close>:
  the number of labelled entries is checked against the optional bounds, every entry must
  be a block (4.2: a sequence of exactly one mapping), and the validator runs on every
  block.
\<close>

definition validateLabeledBlocks ::
  "rawmap \<Rightarrow> string \<Rightarrow> nat option \<Rightarrow> nat option \<Rightarrow> validator \<Rightarrow> verror list" where
  "validateLabeledBlocks in' path mn mx v =
     (case mn of None \<Rightarrow> [] | Some n \<Rightarrow> if length in' < n then [Shape path] else [])
     @ (case mx of None \<Rightarrow> [] | Some n \<Rightarrow> if n < length in' then [Shape path] else [])
     @ concat (map (\<lambda>kv. case parseBlock (snd kv) of
                             None \<Rightarrow> [Shape path]
                           | Some block \<Rightarrow> v block path) in')"

definition validateChecksHorizontal :: validator where
  "validateChecksHorizontal in' path =
     validateLabeledBlocks in' path (Some 1) None validateCheckHorizontal"

text \<open>
  Modelled from the spec: \<open>validateBlocks\<close> is declared in a file of the package
  that is not at hand.  Following 4.3 rule 4 ("Validate the Checks block collection") and
  the call
  \<open>validateBlocks(policy.Policy[keyChecks], path, validateChecksHorizontal)\<close>, whose
  validator takes a map: the value must be a list, every element of it a map, and the
  validator runs on every element.
\<close>

fun validateBlocks :: "raw \<Rightarrow> string \<Rightarrow> validator \<Rightarrow> verror list" where
  "validateBlocks (RList elems) path v =
     concat (map (\<lambda>e. case e of RMap m \<Rightarrow> v m path | _ \<Rightarrow> [Shape path]) elems)"
| "validateBlocks _ path v = [Shape path]"

definition validateHorizontalPolicy :: "ScalingPolicy \<Rightarrow> verror list" where
  "validateHorizontalPolicy policy =
     (let result =
            (case sp_Min policy of
               None \<Rightarrow> [Violation ''scaling.min is missing'']
             | Some mn \<Rightarrow>
                 (case sp_Max policy of
                    None \<Rightarrow> [Violation ''scaling.max is missing'']
                  | Some mx \<Rightarrow>
                      (if mn < 0 then [Violation ''scaling.min can't be negative''] else [])
                      @ (if mn > mx
                         then [Violation ''scaling.min must be smaller than scaling.max'']
                         else [])
                      @ (if mx < 0 then [Violation ''scaling.max can't be negative''] else [])));
          err = validateBlocks (rawGet (sp_Policy policy) keyChecks)
                  (''scaling.policy.'' @ keyChecks) validateChecksHorizontal
      in result @ err)"

section \<open>The evaluation of one check (package agent)\<close>

text \<open>
  The plugin manager and the three plugin kinds are collaborators with fixed interfaces.
  A plugin call either fails with an error (its text, \<open>Inl\<close>) or returns.  The metric
  is a \<open>float64\<close> that the agent only passes from the APM to the strategy; its type is
  the parameter \<open>'m\<close>.
\<close>

datatype pluginType = PluginTypeTarget | PluginTypeAPM | PluginTypeStrategy

record targetStatus =
  status_Ready :: bool
  status_Count :: int

record 'm runRequest =
  req_PolicyID :: string
  req_Count :: int
  req_Metric :: 'm
  req_Config :: config

text \<open>
  A dispensed plugin instance: a target (\<open>Status\<close>, \<open>Scale\<close>), an APM (\<open>Query\<close>) or
  a strategy (\<open>Run\<close>).
\<close>

datatype 'm plugin =
    TargetInst "config \<Rightarrow> string + targetStatus" "action \<Rightarrow> config \<Rightarrow> string option"
  | APMInst "string \<Rightarrow> string + 'm"
  | StrategyInst "'m runRequest \<Rightarrow> string + action list"

type_synonym 'm pluginManager = "string \<Rightarrow> pluginType \<Rightarrow> string + 'm plugin"

definition belowLimitReason :: "int \<Rightarrow> int \<Rightarrow> string" where
  "belowLimitReason cnt lim =
     ''current count ('' @ fmtInt cnt @ '') below limit ('' @ fmtInt lim @ '')''"

definition aboveLimitReason :: "int \<Rightarrow> int \<Rightarrow> string" where
  "aboveLimitReason cnt lim =
     ''current count ('' @ fmtInt cnt @ '') above limit ('' @ fmtInt lim @ '')''"

text \<open>
  The block \<open>if len(results.Actions) == 0 { \<dots> }\<close>: the value of \<open>results.Actions\<close>
  at the \<open>return\<close> that follows it.
\<close>

definition minMaxActions :: "policy \<Rightarrow> int \<Rightarrow> action list \<Rightarrow> action list" where
  "minMaxActions p currentCount actions =
     (if length actions = 0 then
        (if currentCount < policy_Min p then
           [\<lparr>Count = policy_Min p,
             Reason = belowLimitReason currentCount (policy_Min p),
             Error = False, Meta = None\<rparr>]
         else if currentCount > policy_Max p then
           [\<lparr>Count = policy_Max p,
             Reason = aboveLimitReason currentCount (policy_Max p),
             Error = False, Meta = None\<rparr>]
         else [])
      else actions)"

text \<open>
  The faults of \<open>handlePolicyCheck\<close>: \<open>p.Target.Name\<close> and \<open>c.Strategy.Name\<close> are read
  through pointers when the logger is built, and each dispensed instance goes through a
  type assertion that panics on another kind of plugin.  Every failure of a plugin call
  returns the empty slice.  The function ends at \<open>return results.Actions\<close>; the loop
  that follows it in the file (canonicalize, cap, dry-run, scale, cooldown) is commented
  out and is no part of the function.
\<close>

definition handlePolicyCheck ::
  "'m pluginManager \<Rightarrow> policy \<Rightarrow> check \<Rightarrow> fault + action list" where
  "handlePolicyCheck pluginManager p c =
     (case Target p of
        None \<Rightarrow> Inl NilPointer
      | Some tgt \<Rightarrow>
     (case Strategy c of
        None \<Rightarrow> Inl NilPointer
      | Some strat \<Rightarrow>
     (case pluginManager (target_Name tgt) PluginTypeTarget of
        Inl err \<Rightarrow> Inr []
      | Inr (APMInst q) \<Rightarrow> Inl TypeAssertion
      | Inr (StrategyInst r) \<Rightarrow> Inl TypeAssertion
      | Inr (TargetInst Status Scale) \<Rightarrow>
     (case pluginManager (Source c) PluginTypeAPM of
        Inl err \<Rightarrow> Inr []
      | Inr (TargetInst st sc) \<Rightarrow> Inl TypeAssertion
      | Inr (StrategyInst r) \<Rightarrow> Inl TypeAssertion
      | Inr (APMInst QueryAPM) \<Rightarrow>
     (case pluginManager (strategy_Name strat) PluginTypeStrategy of
        Inl err \<Rightarrow> Inr []
      | Inr (TargetInst st sc) \<Rightarrow> Inl TypeAssertion
      | Inr (APMInst q) \<Rightarrow> Inl TypeAssertion
      | Inr (StrategyInst Run) \<Rightarrow>
     (case Status (target_Config tgt) of
        Inl err \<Rightarrow> Inr []
      | Inr currentStatus \<Rightarrow>
          if \<not> status_Ready currentStatus then Inr []
          else
     (case QueryAPM (Query c) of
        Inl err \<Rightarrow> Inr []
      | Inr val \<Rightarrow>
     (case Run \<lparr>req_PolicyID = ID p,
                req_Count = status_Count currentStatus,
                req_Metric = val,
                req_Config = strategy_Config strat\<rparr> of
        Inl err \<Rightarrow> Inr []
      | Inr actions \<Rightarrow>
          Inr (minMaxActions p (status_Count currentStatus) actions)))))))))"

text \<open>
  One iteration of the loop of \<open>Run\<close> on a received evaluation: the value of the local
  \<open>actions\<close> where the iteration ends.  A nil evaluation or a nil policy is skipped.
  Nothing is done with the collected actions.
\<close>

record evaluation =
  eval_Policy :: "policy option"

fun collectActions ::
  "'m pluginManager \<Rightarrow> policy \<Rightarrow> check list \<Rightarrow> action list \<Rightarrow> fault + action list" where
  "collectActions pm p [] actions = Inr actions"
| "collectActions pm p (c # cs) actions =
     (case handlePolicyCheck pm p c of
        Inl f \<Rightarrow> Inl f
      | Inr new \<Rightarrow> collectActions pm p cs (actions @ new))"

definition runIteration ::
  "'m pluginManager \<Rightarrow> evaluation option \<Rightarrow> fault + action list" where
  "runIteration pm policyEval =
     (case policyEval of
        None \<Rightarrow> Inr []
      | Some ev \<Rightarrow>
          (case eval_Policy ev of
             None \<Rightarrow> Inr []
           | Some p \<Rightarrow> collectActions pm p (Checks p) []))"

section \<open>Vocabulary of the statements\<close>

text \<open>
  The labelled blocks of a checks collection: every entry \<open>(label, block)\<close> of every
  map of the list whose value has the shape of a block.  This is the set of check entries
  that the statements below speak about.
\<close>

fun blocksOfMap :: "rawmap \<Rightarrow> (string \<times> rawmap) list" where
  "blocksOfMap [] = []"
| "blocksOfMap ((k, v) # rest) =
     (case parseBlock v of
        None \<Rightarrow> blocksOfMap rest
      | Some b \<Rightarrow> (k, b) # blocksOfMap rest)"

fun blocksOfList :: "raw list \<Rightarrow> (string \<times> rawmap) list" where
  "blocksOfList [] = []"
| "blocksOfList (RMap m # rest) = blocksOfMap m @ blocksOfList rest"
| "blocksOfList (_ # rest) = blocksOfList rest"

fun checkBlocks :: "raw \<Rightarrow> (string \<times> rawmap) list" where
  "checkBlocks (RList xs) = blocksOfList xs"
| "checkBlocks _ = []"

text \<open>
  The check entries of a checks collection: every entry \<open>(label, value)\<close> of every map
  of the list, in order, whatever the shape of the value.
\<close>

fun entriesOfList :: "raw list \<Rightarrow> (string \<times> raw) list" where
  "entriesOfList [] = []"
| "entriesOfList (RMap m # rest) = m @ entriesOfList rest"
| "entriesOfList (_ # rest) = entriesOfList rest"

fun checkEntries :: "raw \<Rightarrow> (string \<times> raw) list" where
  "checkEntries (RList xs) = entriesOfList xs"
| "checkEntries _ = []"

text \<open>
  The same document with the \<open>strategy\<close> key deleted from every check entry that is a
  block; everything else is left as it is.
\<close>

definition dropStrategyBlock :: "raw \<Rightarrow> raw" where
  "dropStrategyBlock v =
     (case parseBlock v of
        None \<Rightarrow> v
      | Some b \<Rightarrow> RList [RMap (filter (\<lambda>kv. fst kv \<noteq> keyStrategy) b)])"

fun dropStrategyElem :: "raw \<Rightarrow> raw" where
  "dropStrategyElem (RMap m) = RMap (map (\<lambda>kv. (fst kv, dropStrategyBlock (snd kv))) m)"
| "dropStrategyElem e = e"

fun dropStrategies :: "raw \<Rightarrow> raw" where
  "dropStrategies (RList xs) = RList (map dropStrategyElem xs)"
| "dropStrategies r = r"

definition withoutStrategy :: "ScalingPolicy \<Rightarrow> ScalingPolicy" where
  "withoutStrategy p =
     p\<lparr>sp_Policy :=
         map (\<lambda>kv. if fst kv = keyChecks then (fst kv, dropStrategies (snd kv)) else kv)
           (sp_Policy p)\<rparr>"

text \<open>The check that the parser builds from one labelled block.\<close>

definition checkOfBlock :: "string \<times> rawmap \<Rightarrow> check" where
  "checkOfBlock kb =
     \<lparr>Name = fst kb,
      Source = stringOrEmpty (rawGet (snd kb) keySource),
      Query = stringOrEmpty (rawGet (snd kb) keyQuery),
      Strategy = parseStrategy (rawGet (snd kb) keyStrategy)\<rparr>"

text \<open>
  The two sources of a target's configuration: the entries of the nested
  \<open>target.config\<close> block (none when there is no such block) and the entries of the flat
  attribute map (none when it is nil).
\<close>

definition targetBlockConfig :: "raw \<Rightarrow> rawmap" where
  "targetBlockConfig targetBlock =
     (case parseBlock targetBlock of
        None \<Rightarrow> []
      | Some tm \<Rightarrow> (case parseBlock (rawGet tm ''config'') of None \<Rightarrow> [] | Some cm \<Rightarrow> cm))"

definition attrConfig :: "(string \<times> string) list option \<Rightarrow> (string \<times> string) list" where
  "attrConfig targetAttr = (case targetAttr of None \<Rightarrow> [] | Some m \<Rightarrow> m)"

text \<open>
  The shaping of one action as step 8 of section 4.5 of the specification words it, and
  as the commented-out loop of \<open>handlePolicyCheck\<close> would do it: canonicalize, cap to
  the policy's limits, and convert to dry-run form when the target's configuration maps
  \<open>dry-run\<close> to \<open>true\<close>.  It is built from the functions of the Action model and
  is used only to say what \<open>handlePolicyCheck\<close> does not do.
\<close>

definition spec_shapeAction :: "policy \<Rightarrow> target \<Rightarrow> action \<Rightarrow> fault + action" where
  "spec_shapeAction p tgt a =
     thenF (CapCount (policy_Min p) (policy_Max p) (Canonicalize a)) (\<lambda>a1.
       if (case target_Config tgt of None \<Rightarrow> None | Some cfg \<Rightarrow> cfg ''dry-run'') = Some ''true''
       then SetDryRun a1 else Inr a1)"

subsection \<open>Concrete inputs\<close>

text \<open>
  A plugin manager whose target reports the count \<open>cnt\<close> and is ready, whose APM
  answers every query, and whose strategy returns the given actions.
\<close>

definition stubManager :: "int \<Rightarrow> action list \<Rightarrow> int pluginManager" where
  "stubManager cnt actions name kind =
     (case kind of
        PluginTypeTarget \<Rightarrow>
          Inr (TargetInst (\<lambda>cfg. Inr \<lparr>status_Ready = True, status_Count = cnt\<rparr>)
                 (\<lambda>a cfg. None))
      | PluginTypeAPM \<Rightarrow> Inr (APMInst (\<lambda>q. Inr 0))
      | PluginTypeStrategy \<Rightarrow> Inr (StrategyInst (\<lambda>req. Inr actions)))"

definition strategy0 :: strategy where
  "strategy0 = \<lparr>strategy_Name = ''target-value'', strategy_Config = None\<rparr>"

definition check0 :: check where
  "check0 = \<lparr>Name = ''cpu'', Source = ''prometheus'', Query = ''avg_cpu'',
             Strategy = Some strategy0\<rparr>"

definition target0 :: target where
  "target0 = \<lparr>target_Name = ''nomad'', target_Config = Some [''dry-run'' \<mapsto> ''true'']\<rparr>"

text \<open>A policy with \<open>Min = 2\<close>, \<open>Max = 10\<close> and a dry-run target.\<close>

definition policy0 :: policy where
  "policy0 = \<lparr>ID = ''p'', policy_Min = 2, policy_Max = 10, Enabled = True,
              EvaluationInterval = 0, Cooldown = 0,
              Target = Some target0, Checks = [check0]\<rparr>"

definition action15 :: action where
  "action15 = \<lparr>Count = 15, Reason = ''scale up'', Error = False, Meta = None\<rparr>"

text \<open>A raw document with the given bounds and one check \<open>c1\<close> holding the given block.\<close>

definition document :: "int option \<Rightarrow> int option \<Rightarrow> rawmap \<Rightarrow> ScalingPolicy" where
  "document mn mx checkBlock =
     \<lparr>sp_ID = ''p'', sp_Min = mn, sp_Max = mx, sp_Enabled = None, sp_Target = None,
      sp_Policy = [(keyChecks, RList [RMap [(''c1'', RList [RMap checkBlock])]])]\<rparr>"

text \<open>A well-formed strategy block.\<close>

definition strategyBlock :: raw where
  "strategyBlock = RList [RMap [(''name'', RStr ''target-value'')]]"

text \<open>An action with an initialized, empty \<open>Meta\<close>.\<close>

definition freshAction :: "int \<Rightarrow> string \<Rightarrow> action" where
  "freshAction cnt r = \<lparr>Count = cnt, Reason = r, Error = False, Meta = Some Map.empty\<rparr>"

text \<open>A duration parser that rejects every string (no document below has a duration).\<close>

definition noDuration :: "string \<Rightarrow> int option" where
  "noDuration s = None"

section \<open>Evaluation lemmas\<close>

lemma digits_small: "n < 10 \<Longrightarrow> digits n = [''0123456789'' ! n]"
  by (simp add: digits.simps)

lemma digits_large:
  "\<not> n < 10 \<Longrightarrow> digits n = digits (n div 10) @ [''0123456789'' ! (n mod 10)]"
  by (subst digits.simps) simp

lemma fmtInt_1: "fmtInt 1 = ''1''"
  by (simp add: fmtInt_def digits_small)

lemma fmtInt_2: "fmtInt 2 = ''2''"
  by (simp add: fmtInt_def digits_small)

lemmas action_defs =
  SetDryRun_def CapCount_def pushReason_def metaSet_def metaGet_def thenF_def
  Canonicalize_def MetaValueDryRunCount_def countOf_def historyOf_def reasonOf_def
  reasonHistory_def freshAction_def

lemmas key_defs =
  keyChecks_def keyQuery_def keyStrategy_def keySource_def keyTarget_def
  keyEvaluationInterval_def keyCooldown_def

lemmas document_defs =
  document_def validateHorizontalPolicy_def validateChecksHorizontal_def
  validateLabeledBlocks_def validateCheckHorizontal_def parsePolicy_def rawGet_def
  parseCheck_def parseStrategy_def parseTarget_def stringOrEmpty_def strategyBlock_def
  noDuration_def Let_def

lemmas agent_defs =
  handlePolicyCheck_def minMaxActions_def belowLimitReason_def aboveLimitReason_def
  stubManager_def policy0_def check0_def target0_def strategy0_def action15_def

section \<open>The Action model\<close>

lemma pushReason_ok:
  "Meta a = Some m \<Longrightarrow>
     \<exists>a'. pushReason r a = Inr a' \<and> Meta a' \<noteq> None \<and> Reason a' = r
       \<and> Count a' = Count a \<and> Error a' = Error a
       \<and> metaGet (Meta a') metaKeyReasonHistory = Some (MStrings (reasonHistory a'))
       \<and> reasonHistory a' = reasonHistory a @ (if Reason a \<noteq> [] then [Reason a] else [])"
  by (auto simp: action_defs Let_def split: option.splits mval.splits)

text \<open>
  What a sequence of pushes does in general: the final reason is the last one pushed, and
  the history grows by the non-empty ones among the reason the action had and all pushed
  reasons but the last, in call order.
\<close>

lemma pushReasons_ok:
  "Meta a \<noteq> None \<Longrightarrow> rs \<noteq> [] \<Longrightarrow>
     \<exists>a'. pushReasons rs a = Inr a' \<and> Meta a' \<noteq> None \<and> Reason a' = last rs
       \<and> Count a' = Count a \<and> Error a' = Error a
       \<and> metaGet (Meta a') metaKeyReasonHistory = Some (MStrings (reasonHistory a'))
       \<and> reasonHistory a' =
           reasonHistory a @ filter (\<lambda>r. r \<noteq> []) (Reason a # butlast rs)"
proof (induction rs arbitrary: a)
  case Nil
  then show ?case by simp
next
  case (Cons r rs)
  from Cons.prems obtain m where m: "Meta a = Some m" by auto
  from pushReason_ok [OF m, of r] obtain a1 where
    a1: "pushReason r a = Inr a1" "Meta a1 \<noteq> None" "Reason a1 = r" "Count a1 = Count a"
      "Error a1 = Error a"
      "metaGet (Meta a1) metaKeyReasonHistory = Some (MStrings (reasonHistory a1))"
      "reasonHistory a1 = reasonHistory a @ (if Reason a \<noteq> [] then [Reason a] else [])"
    by blast
  show ?case
  proof (cases "rs = []")
    case True
    with a1 show ?thesis by (simp add: thenF_def)
  next
    case False
    from Cons.IH [OF a1(2) False] obtain a' where
      a': "pushReasons rs a1 = Inr a'" "Meta a' \<noteq> None" "Reason a' = last rs"
        "Count a' = Count a1" "Error a' = Error a1"
        "metaGet (Meta a') metaKeyReasonHistory = Some (MStrings (reasonHistory a'))"
        "reasonHistory a' =
           reasonHistory a1 @ filter (\<lambda>r. r \<noteq> []) (Reason a1 # butlast rs)"
      by blast
    with a1 False show ?thesis by (simp add: thenF_def)
  qed
qed

text \<open>
  C7.  On an action whose \<open>Count\<close> is the dry-run sentinel, \<open>CapCount\<close> returns the
  action as it is, for all bounds: neither \<open>Count\<close> nor \<open>Meta\<close> (the capped flag or
  any other entry) nor \<open>Reason\<close> changes, and nothing faults, even on a nil \<open>Meta\<close>.
  Consequently the action that \<open>SetDryRun\<close> returns has \<open>Count = -1\<close> and \<open>CapCount\<close>
  leaves it as it is; and \<open>SetDryRun\<close> does return on every action with a non-nil
  \<open>Meta\<close>.
\<close>

theorem CapCount_dry_run_noop:
  "(Count a = MetaValueDryRunCount \<longrightarrow> CapCount mn mx a = Inr a)
   \<and> (\<forall>a'. SetDryRun a = Inr a' \<longrightarrow>
          Count a' = MetaValueDryRunCount \<and> CapCount mn mx a' = Inr a')
   \<and> (Meta a \<noteq> None \<longrightarrow> (\<exists>a'. SetDryRun a = Inr a'))"
  by (auto simp: action_defs split: option.splits)

text \<open>
  Witness for C7: the sentinel action under the bounds \<open>[0, 10]\<close>, and the action
  with count 5 put into dry-run form and then capped to \<open>[0, 3]\<close>.
\<close>

theorem CapCount_dry_run_noop_witness:
  "Count (freshAction (- 1) ''r'') = MetaValueDryRunCount
   \<and> CapCount 0 10 (freshAction (- 1) ''r'') = Inr (freshAction (- 1) ''r'')
   \<and> Meta (freshAction 5 ''r'') \<noteq> None
   \<and> countOf (SetDryRun (freshAction 5 ''r'')) = Some (- 1)
   \<and> countOf (thenF (SetDryRun (freshAction 5 ''r'')) (CapCount 0 3)) = Some (- 1)"
proof -
  have s: "Count (freshAction (- 1) ''r'') = MetaValueDryRunCount"
    by (simp add: freshAction_def MetaValueDryRunCount_def)
  have m: "Meta (freshAction 5 ''r'') \<noteq> None"
    by (simp add: freshAction_def)
  from CapCount_dry_run_noop [of "freshAction (- 1) ''r''" 0 10] s
  have c1: "CapCount 0 10 (freshAction (- 1) ''r'') = Inr (freshAction (- 1) ''r'')"
    by blast
  from CapCount_dry_run_noop [of "freshAction 5 ''r''" 0 3] m
  obtain a' where a': "SetDryRun (freshAction 5 ''r'') = Inr a'"
    "Count a' = MetaValueDryRunCount" "CapCount 0 3 a' = Inr a'"
    by blast
  from a' have "countOf (SetDryRun (freshAction 5 ''r'')) = Some (- 1)"
    "countOf (thenF (SetDryRun (freshAction 5 ''r'')) (CapCount 0 3)) = Some (- 1)"
    by (simp_all add: countOf_def thenF_def MetaValueDryRunCount_def)
  with s m c1 show ?thesis by blast
qed

text \<open>
  C8, as stated, fails: with \<open>min = 5 > max = 3\<close> the first call raises the count 0 to
  5 and the second call lowers 5 to 3.
\<close>

theorem CapCount_idempotent_counterexample:
  "countOf (CapCount 5 3 (freshAction 0 [])) = Some 5
   \<and> countOf (thenF (CapCount 5 3 (freshAction 0 [])) (CapCount 5 3)) = Some 3"
  by (simp add: action_defs)

text \<open>
  C8, amended.  For every action and all bounds with \<open>min \<le> max\<close>, calling
  \<open>CapCount\<close> twice in succession yields the same \<open>Count\<close> as calling it once (and
  the two calls fault exactly when the single call does).
\<close>

theorem CapCount_idempotent:
  "mn \<le> mx \<Longrightarrow>
     countOf (thenF (CapCount mn mx a) (CapCount mn mx)) = countOf (CapCount mn mx a)"
  by (auto simp: action_defs Let_def split: option.splits)

text \<open>Witness for C8: the count 15 under the bounds \<open>[2, 10]\<close> is 10 after one call and after two.\<close>

theorem CapCount_idempotent_witness:
  "(2::int) \<le> 10
   \<and> countOf (CapCount 2 10 (freshAction 15 ''r'')) = Some 10
   \<and> countOf (thenF (CapCount 2 10 (freshAction 15 ''r'')) (CapCount 2 10)) = Some 10"
proof -
  have h: "(2::int) \<le> 10" by simp
  have one: "countOf (CapCount 2 10 (freshAction 15 ''r'')) = Some 10"
    by (simp add: action_defs)
  from CapCount_idempotent [OF h, of "freshAction 15 ''r''"] one h
  show ?thesis by simp
qed

text \<open>
  C9, as stated, fails: on an action that already has a reason, one push (\<open>N = 1\<close>)
  leaves a history of length 1, not \<open>N - 1 = 0\<close>.
\<close>

theorem pushReason_history_counterexample:
  "historyOf (pushReasons [''new''] (freshAction 1 ''old'')) = Some [''old'']
   \<and> length [''old''] \<noteq> length [''new''] - 1"
  by (simp add: action_defs)

text \<open>
  C9, amended.  For every action with a non-nil \<open>Meta\<close>, an empty \<open>Reason\<close> and no
  reason history yet, calling \<open>pushReason\<close> \<open>N \<ge> 1\<close> times, every pushed reason but
  possibly the last being non-empty, returns without a fault and leaves
  \<open>Meta[reason_history]\<close> holding, in call order, all pushed reasons but the final one (a
  list of length \<open>N - 1\<close>) and \<open>Reason\<close> equal to the last pushed value.
\<close>

theorem pushReasons_history:
  assumes "Meta a \<noteq> None" and "Reason a = []" and "reasonHistory a = []"
    and "rs \<noteq> []" and "[] \<notin> set (butlast rs)"
  shows "\<exists>a'. pushReasons rs a = Inr a'
           \<and> metaGet (Meta a') metaKeyReasonHistory = Some (MStrings (butlast rs))
           \<and> length (reasonHistory a') = length rs - 1
           \<and> Reason a' = last rs"
proof -
  from pushReasons_ok [OF assms(1) assms(4)] obtain a' where
    a': "pushReasons rs a = Inr a'" "Reason a' = last rs"
        "metaGet (Meta a') metaKeyReasonHistory = Some (MStrings (reasonHistory a'))"
        "reasonHistory a' =
           reasonHistory a @ filter (\<lambda>r. r \<noteq> []) (Reason a # butlast rs)"
    by blast
  have "filter (\<lambda>r. r \<noteq> []) (butlast rs) = butlast rs"
    using assms(5) by (simp add: filter_id_conv) metis
  with a' assms have h: "reasonHistory a' = butlast rs" by simp
  with a' show ?thesis by (simp add: length_butlast)
qed

text \<open>
  Witness for C9: three pushes on a fresh action leave the history \<open>[a, b]\<close> and the
  reason \<open>c\<close>.
\<close>

theorem pushReasons_history_witness:
  "Meta (freshAction 1 []) \<noteq> None \<and> Reason (freshAction 1 []) = []
   \<and> reasonHistory (freshAction 1 []) = []
   \<and> [''a'', ''b'', ''c''] \<noteq> [] \<and> [] \<notin> set (butlast [''a'', ''b'', ''c''])
   \<and> historyOf (pushReasons [''a'', ''b'', ''c''] (freshAction 1 [])) = Some [''a'', ''b'']
   \<and> reasonOf (pushReasons [''a'', ''b'', ''c''] (freshAction 1 [])) = Some ''c''"
proof -
  have h: "Meta (freshAction 1 []) \<noteq> None" "Reason (freshAction 1 []) = []"
    "reasonHistory (freshAction 1 []) = []"
    "[''a'', ''b'', ''c''] \<noteq> []" "[] \<notin> set (butlast [''a'', ''b'', ''c''])"
    by (simp_all add: freshAction_def reasonHistory_def metaGet_def)
  from pushReasons_history [OF h] obtain a' where
    a': "pushReasons [''a'', ''b'', ''c''] (freshAction 1 []) = Inr a'"
      "metaGet (Meta a') metaKeyReasonHistory = Some (MStrings (butlast [''a'', ''b'', ''c'']))"
      "Reason a' = last [''a'', ''b'', ''c'']"
    by blast
  then have "historyOf (pushReasons [''a'', ''b'', ''c''] (freshAction 1 [])) = Some [''a'', ''b'']"
    "reasonOf (pushReasons [''a'', ''b'', ''c''] (freshAction 1 [])) = Some ''c''"
    by (simp_all add: historyOf_def reasonOf_def reasonHistory_def)
  with h show ?thesis by blast
qed

text \<open>
  C10.  On an action whose \<open>Meta\<close> is nil, \<open>SetDryRun\<close> faults with a write to a nil
  map, and \<open>CapCount\<close> faults exactly when it has to record a cap, that is when
  \<open>Count\<close> is not the sentinel and lies outside \<open>[min, max]\<close>; otherwise it returns
  the action unchanged.  \<open>Canonicalize\<close> makes \<open>Meta\<close> non-nil, and on a non-nil
  \<open>Meta\<close> neither \<open>SetDryRun\<close> nor \<open>CapCount\<close> faults.
\<close>

theorem nil_Meta_faults:
  "(Meta a = None \<longrightarrow>
      SetDryRun a = Inl NilMapWrite
      \<and> CapCount mn mx a =
          (if Count a \<noteq> MetaValueDryRunCount \<and> (Count a < mn \<or> mx < Count a)
           then Inl NilMapWrite else Inr a))
   \<and> Meta (Canonicalize a) \<noteq> None
   \<and> (Meta a \<noteq> None \<longrightarrow>
        (\<exists>a'. SetDryRun a = Inr a') \<and> (\<exists>a'. CapCount mn mx a = Inr a'))"
  by (auto simp: action_defs Let_def split: option.splits)

text \<open>
  Witness for C10: the action \<open>action15\<close> (count 15, nil \<open>Meta\<close>) faults in
  \<open>SetDryRun\<close> and in \<open>CapCount 2 10\<close>, passes \<open>CapCount 2 20\<close> unchanged, and after
  \<open>Canonicalize\<close> is capped to 10.
\<close>

theorem nil_Meta_faults_witness:
  "Meta action15 = None
   \<and> SetDryRun action15 = Inl NilMapWrite
   \<and> CapCount 2 10 action15 = Inl NilMapWrite
   \<and> CapCount 2 20 action15 = Inr action15
   \<and> Meta (Canonicalize action15) \<noteq> None
   \<and> countOf (CapCount 2 10 (Canonicalize action15)) = Some 10"
proof -
  have m: "Meta action15 = None" by (simp add: action15_def)
  have c: "Count action15 = 15" by (simp add: action15_def)
  from nil_Meta_faults [of action15 2 10] m c
  have a: "SetDryRun action15 = Inl NilMapWrite" "CapCount 2 10 action15 = Inl NilMapWrite"
    "Meta (Canonicalize action15) \<noteq> None"
    by (simp_all add: MetaValueDryRunCount_def)
  from nil_Meta_faults [of action15 2 20] m c
  have b: "CapCount 2 20 action15 = Inr action15"
    by (simp add: MetaValueDryRunCount_def)
  have "countOf (CapCount 2 10 (Canonicalize action15)) = Some 10"
    by (simp add: action_defs action15_def)
  with m a b show ?thesis by blast
qed

section \<open>The parser and the validator\<close>

subsection \<open>The checks that the parser builds\<close>

lemma parseCheck_block:
  "parseBlock v = Some b \<Longrightarrow> parseCheck v = Some ((checkOfBlock (k, b))\<lparr>Name := []\<rparr>)"
  by (auto simp: parseCheck_def checkOfBlock_def stringOrEmpty_def Let_def
           split: option.splits)

lemma parseCheck_noblock: "parseBlock v = None \<Longrightarrow> parseCheck v = None"
  by (simp add: parseCheck_def)

lemma parseCheckMap_blocks: "parseCheckMap m = map checkOfBlock (blocksOfMap m)"
proof (induction m)
  case Nil
  then show ?case by simp
next
  case (Cons kv m)
  obtain k v where kv: "kv = (k, v)" by (cases kv)
  show ?case
  proof (cases "parseBlock v")
    case None
    with Cons kv show ?thesis by (simp add: parseCheck_noblock)
  next
    case (Some b)
    with Cons kv show ?thesis
      by (simp add: parseCheck_block [where k = k]) (simp add: checkOfBlock_def)
  qed
qed

lemma parseCheckList_blocks: "parseCheckList xs = map checkOfBlock (blocksOfList xs)"
  by (induction xs rule: blocksOfList.induct) (simp_all add: parseCheckMap_blocks)

lemma parseChecks_blocks: "parseChecks r = map checkOfBlock (checkBlocks r)"
  by (cases r) (simp_all add: parseCheckList_blocks)

lemma Checks_parsePolicy:
  "Checks (parsePolicy pd p) = map checkOfBlock (checkBlocks (rawGet (sp_Policy p) keyChecks))"
  by (simp add: parsePolicy_def Let_def parseChecks_blocks split: option.splits)

lemma blocksOfMap_iff:
  "(k, b) \<in> set (blocksOfMap m) \<longleftrightarrow> (\<exists>v. (k, v) \<in> set m \<and> parseBlock v = Some b)"
  by (induction m rule: blocksOfMap.induct) (auto split: option.splits)

lemma blocksOfList_iff:
  "kb \<in> set (blocksOfList xs) \<longleftrightarrow> (\<exists>m. RMap m \<in> set xs \<and> kb \<in> set (blocksOfMap m))"
  by (induction xs rule: blocksOfList.induct) auto

subsection \<open>What a passed validation implies\<close>

lemma validateCheckHorizontal_nil:
  "validateCheckHorizontal b path = [] \<longleftrightarrow> map_of b keyQuery \<noteq> None"
  by (simp add: validateCheckHorizontal_def)

lemma validateLabeled_query:
  assumes "validateLabeledBlocks m path mn mx validateCheckHorizontal = []"
    and "(k, b) \<in> set (blocksOfMap m)"
  shows "map_of b keyQuery \<noteq> None"
proof -
  from assms(2) obtain v where v: "(k, v) \<in> set m" "parseBlock v = Some b"
    by (auto simp: blocksOfMap_iff)
  from assms(1) have "\<forall>kv \<in> set m. (case parseBlock (snd kv) of None \<Rightarrow> [Shape path]
      | Some block \<Rightarrow> validateCheckHorizontal block path) = []"
    by (simp add: validateLabeledBlocks_def)
  with v have "validateCheckHorizontal b path = []" by fastforce
  then show ?thesis by (simp add: validateCheckHorizontal_nil)
qed

lemma validateBlocks_query:
  assumes "validateBlocks r path validateChecksHorizontal = []"
    and "(k, b) \<in> set (checkBlocks r)"
  shows "map_of b keyQuery \<noteq> None"
proof (cases r)
  case (RList xs)
  with assms(2) obtain m where m: "RMap m \<in> set xs" "(k, b) \<in> set (blocksOfMap m)"
    by (auto simp: blocksOfList_iff)
  from assms(1) RList have "\<forall>e \<in> set xs.
      (case e of RMap m \<Rightarrow> validateChecksHorizontal m path | _ \<Rightarrow> [Shape path]) = []"
    by simp
  with m(1) have "validateChecksHorizontal m path = []" by fastforce
  then show ?thesis
    unfolding validateChecksHorizontal_def by (rule validateLabeled_query) (rule m(2))
qed (use assms in simp_all)

lemma validateHorizontalPolicy_nil:
  "validateHorizontalPolicy p = [] \<longleftrightarrow>
     (\<exists>mn mx. sp_Min p = Some mn \<and> sp_Max p = Some mx \<and> 0 \<le> mn \<and> mn \<le> mx)
     \<and> validateBlocks (rawGet (sp_Policy p) keyChecks) (''scaling.policy.'' @ keyChecks)
           validateChecksHorizontal = []"
  by (auto simp: validateHorizontalPolicy_def Let_def split: option.splits)

subsection \<open>The messages of the check validation\<close>

lemma validateLabeled_violations:
  "Violation msg \<in> set (validateLabeledBlocks m path mn mx validateCheckHorizontal) \<Longrightarrow>
     msg = path @ ''.'' @ keyQuery @ '' is missing''"
  by (auto simp: validateLabeledBlocks_def validateCheckHorizontal_def
           split: option.splits if_splits)

lemma validateBlocks_violations:
  "Violation msg \<in> set (validateBlocks r path validateChecksHorizontal) \<Longrightarrow>
     msg = path @ ''.'' @ keyQuery @ '' is missing''"
proof (cases r)
  case (RList xs)
  assume "Violation msg \<in> set (validateBlocks r path validateChecksHorizontal)"
  with RList have "\<exists>e \<in> set xs.
      Violation msg \<in> set (case e of RMap m \<Rightarrow> validateChecksHorizontal m path
                              | _ \<Rightarrow> [Shape path])"
    by simp
  then obtain e where e:
    "Violation msg \<in> set (case e of RMap m \<Rightarrow> validateChecksHorizontal m path
                            | _ \<Rightarrow> [Shape path])"
    by blast
  show ?thesis
  proof (cases e)
    case (RMap m)
    with e have
      "Violation msg \<in> set (validateLabeledBlocks m path (Some 1) None validateCheckHorizontal)"
      by (simp add: validateChecksHorizontal_def)
    then show ?thesis by (rule validateLabeled_violations)
  qed (use e in simp_all)
qed auto

text \<open>
  C2.  For every raw document in which \<open>Min\<close> is absent, the result of
  \<open>validateHorizontalPolicy\<close> is the violation "scaling.min is missing" followed by
  what the validation of the check blocks reports, and nothing else: "scaling.max is
  missing" is not recorded (whether \<open>Max\<close> is absent or not), and none of the three
  negativity and ordering violations is.
\<close>

theorem validateHorizontalPolicy_min_missing:
  assumes "sp_Min p = None"
  shows "validateHorizontalPolicy p =
           Violation ''scaling.min is missing''
             # validateBlocks (rawGet (sp_Policy p) keyChecks) (''scaling.policy.'' @ keyChecks)
                 validateChecksHorizontal
     \<and> Violation ''scaling.max is missing'' \<notin> set (validateHorizontalPolicy p)
     \<and> Violation ''scaling.min can't be negative'' \<notin> set (validateHorizontalPolicy p)
     \<and> Violation ''scaling.min must be smaller than scaling.max''
           \<notin> set (validateHorizontalPolicy p)
     \<and> Violation ''scaling.max can't be negative'' \<notin> set (validateHorizontalPolicy p)"
proof -
  let ?err = "validateBlocks (rawGet (sp_Policy p) keyChecks) (''scaling.policy.'' @ keyChecks)
                 validateChecksHorizontal"
  have eq: "validateHorizontalPolicy p = Violation ''scaling.min is missing'' # ?err"
    using assms by (simp add: validateHorizontalPolicy_def)
  have no: "Violation msg \<notin> set ?err" if "take 9 msg \<noteq> ''scaling.p''" for msg
  proof
    assume "Violation msg \<in> set ?err"
    then have "msg = (''scaling.policy.'' @ keyChecks) @ ''.'' @ keyQuery @ '' is missing''"
      by (rule validateBlocks_violations)
    with that show False by simp
  qed
  have "Violation ''scaling.max is missing'' \<notin> set ?err"
    "Violation ''scaling.min can't be negative'' \<notin> set ?err"
    "Violation ''scaling.min must be smaller than scaling.max'' \<notin> set ?err"
    "Violation ''scaling.max can't be negative'' \<notin> set ?err"
    by (rule no, simp)+
  then show ?thesis
    unfolding eq by simp
qed

text \<open>
  Witness for C2: a document with neither \<open>Min\<close> nor \<open>Max\<close> and one well-formed
  check; the only violation is "scaling.min is missing".
\<close>

theorem validateHorizontalPolicy_min_missing_witness:
  "sp_Min (document None None [(keyQuery, RStr ''avg_cpu'')]) = None
   \<and> sp_Max (document None None [(keyQuery, RStr ''avg_cpu'')]) = None
   \<and> validateHorizontalPolicy (document None None [(keyQuery, RStr ''avg_cpu'')])
       = [Violation ''scaling.min is missing'']"
proof -
  let ?d = "document None None [(keyQuery, RStr ''avg_cpu'')]"
  have h: "sp_Min ?d = None" "sp_Max ?d = None" by (simp_all add: document_def)
  have "validateBlocks (rawGet (sp_Policy ?d) keyChecks) (''scaling.policy.'' @ keyChecks)
          validateChecksHorizontal = []"
    by (simp add: document_defs)
  with validateHorizontalPolicy_min_missing [OF h(1)]
  have "validateHorizontalPolicy ?d = [Violation ''scaling.min is missing'']"
    by simp
  with h show ?thesis by blast
qed

text \<open>
  C3, as stated, fails: a document with \<open>Min = 1\<close>, \<open>Max = 2\<close> and one check whose
  \<open>query\<close> is the empty string passes the validation, and the parsed check has an empty
  \<open>Query\<close>.
\<close>

theorem validated_empty_query_counterexample:
  "validateHorizontalPolicy (document (Some 1) (Some 2) [(keyQuery, RStr [])]) = []
   \<and> map Query (Checks (parsePolicy noDuration
                           (document (Some 1) (Some 2) [(keyQuery, RStr [])]))) = [[]]"
  by (simp add: document_defs key_defs)

text \<open>
  C3, amended.  For every raw document, if \<open>validateHorizontalPolicy\<close> returns nil then
  both bounds are present and \<open>parsePolicy\<close> produces a Policy with \<open>Min \<le> Max\<close>, and
  every parsed Check comes from a check block in which the \<open>query\<close> key is present; its
  \<open>Query\<close> is the value stored there when that is a string, and empty otherwise (so it is
  non-empty exactly when the stored value is a non-empty string).
\<close>

theorem validated_bounds_and_query:
  assumes "validateHorizontalPolicy p = []"
  shows "(\<exists>mn mx. sp_Min p = Some mn \<and> sp_Max p = Some mx
            \<and> policy_Min (parsePolicy pd p) = mn \<and> policy_Max (parsePolicy pd p) = mx
            \<and> mn \<le> mx)
     \<and> (\<forall>c \<in> set (Checks (parsePolicy pd p)).
           \<exists>b. (Name c, b) \<in> set (checkBlocks (rawGet (sp_Policy p) keyChecks))
              \<and> map_of b keyQuery \<noteq> None
              \<and> Query c = stringOrEmpty (rawGet b keyQuery))"
proof -
  from assms obtain mn mx where b: "sp_Min p = Some mn" "sp_Max p = Some mx" "mn \<le> mx"
    and v: "validateBlocks (rawGet (sp_Policy p) keyChecks) (''scaling.policy.'' @ keyChecks)
           validateChecksHorizontal = []"
    by (auto simp: validateHorizontalPolicy_nil)
  have mins: "policy_Min (parsePolicy pd p) = mn" "policy_Max (parsePolicy pd p) = mx"
    using b by (simp_all add: parsePolicy_def Let_def split: option.splits)
  have "\<exists>b. (Name c, b) \<in> set (checkBlocks (rawGet (sp_Policy p) keyChecks))
              \<and> map_of b keyQuery \<noteq> None
              \<and> Query c = stringOrEmpty (rawGet b keyQuery)"
    if "c \<in> set (Checks (parsePolicy pd p))" for c
  proof -
    from that obtain kb where kb: "kb \<in> set (checkBlocks (rawGet (sp_Policy p) keyChecks))"
      "c = checkOfBlock kb" by (auto simp: Checks_parsePolicy)
    obtain k bl where "kb = (k, bl)" by (cases kb)
    with kb validateBlocks_query [OF v, of k bl] show ?thesis
      by (auto simp: checkOfBlock_def)
  qed
  with b mins show ?thesis by blast
qed

text \<open>
  Witness for C3: the document with \<open>Min = 1\<close>, \<open>Max = 2\<close> and one check with the
  query \<open>avg_cpu\<close> passes the validation and is parsed to those bounds and that query.
\<close>

theorem validated_bounds_and_query_witness:
  "validateHorizontalPolicy (document (Some 1) (Some 2) [(keyQuery, RStr ''avg_cpu'')]) = []
   \<and> policy_Min (parsePolicy noDuration
        (document (Some 1) (Some 2) [(keyQuery, RStr ''avg_cpu'')])) = 1
   \<and> policy_Max (parsePolicy noDuration
        (document (Some 1) (Some 2) [(keyQuery, RStr ''avg_cpu'')])) = 2
   \<and> map Query (Checks (parsePolicy noDuration
        (document (Some 1) (Some 2) [(keyQuery, RStr ''avg_cpu'')]))) = [''avg_cpu'']"
proof -
  let ?d = "document (Some 1) (Some 2) [(keyQuery, RStr ''avg_cpu'')]"
  have h: "validateHorizontalPolicy ?d = []"
    by (simp add: document_defs)
  from validated_bounds_and_query [OF h, of noDuration]
  have "policy_Min (parsePolicy noDuration ?d) = 1" "policy_Max (parsePolicy noDuration ?d) = 2"
    by (auto simp: document_def)
  moreover have "map Query (Checks (parsePolicy noDuration ?d)) = [''avg_cpu'']"
    by (simp add: document_defs key_defs)
  ultimately show ?thesis using h by blast
qed

text \<open>
  C4, as stated, fails: a document whose only check has a \<open>query\<close> and no \<open>strategy\<close>
  passes the validation, and the parsed check has a nil \<open>Strategy\<close>.
\<close>

theorem validated_nil_strategy_counterexample:
  "validateHorizontalPolicy (document (Some 1) (Some 2) [(keyQuery, RStr ''avg_cpu'')]) = []
   \<and> map Strategy (Checks (parsePolicy noDuration
                              (document (Some 1) (Some 2) [(keyQuery, RStr ''avg_cpu'')])))
       = [None]"
  by (simp add: document_defs key_defs)

subsection \<open>The strategy of a check\<close>

lemma map_of_filter_other:
  "k \<noteq> k' \<Longrightarrow> map_of (filter (\<lambda>kv. fst kv \<noteq> k') b) k = map_of b k"
  by (induction b) auto

lemma map_of_filter_same:
  "map_of (filter (\<lambda>kv. fst kv \<noteq> k') b) k' = None"
  by (induction b) auto

lemma parseBlock_dropStrategyBlock:
  "parseBlock (dropStrategyBlock v) =
     map_option (filter (\<lambda>kv. fst kv \<noteq> keyStrategy)) (parseBlock v)"
  by (simp add: dropStrategyBlock_def split: option.splits)

lemma key_distinct: "keyQuery \<noteq> keyStrategy" "keySource \<noteq> keyStrategy"
  by (simp_all add: keyQuery_def keyStrategy_def keySource_def)

lemma validateCheckHorizontal_drop:
  "validateCheckHorizontal (filter (\<lambda>kv. fst kv \<noteq> keyStrategy) b) path
     = validateCheckHorizontal b path"
  by (simp add: validateCheckHorizontal_def map_of_filter_other key_distinct)

lemma validateLabeled_drop:
  "validateLabeledBlocks (map (\<lambda>kv. (fst kv, dropStrategyBlock (snd kv))) m) path mn mx
       validateCheckHorizontal
     = validateLabeledBlocks m path mn mx validateCheckHorizontal"
proof -
  have "(case parseBlock (dropStrategyBlock v) of None \<Rightarrow> [Shape path]
          | Some block \<Rightarrow> validateCheckHorizontal block path)
      = (case parseBlock v of None \<Rightarrow> [Shape path]
          | Some block \<Rightarrow> validateCheckHorizontal block path)" for v
    by (simp add: parseBlock_dropStrategyBlock validateCheckHorizontal_drop split: option.splits)
  then show ?thesis
    by (simp add: validateLabeledBlocks_def comp_def split: option.splits)
qed

lemma validateElem_drop:
  "(case dropStrategyElem e of RMap m \<Rightarrow> validateChecksHorizontal m path | _ \<Rightarrow> [Shape path])
     = (case e of RMap m \<Rightarrow> validateChecksHorizontal m path | _ \<Rightarrow> [Shape path])"
  by (cases e) (simp_all add: validateChecksHorizontal_def validateLabeled_drop)

lemma validateBlocks_drop:
  "validateBlocks (dropStrategies r) path validateChecksHorizontal
     = validateBlocks r path validateChecksHorizontal"
  by (cases r) (simp_all add: comp_def validateElem_drop)

lemma rawGet_withoutStrategy:
  "rawGet (sp_Policy (withoutStrategy p)) keyChecks = dropStrategies (rawGet (sp_Policy p) keyChecks)"
proof -
  have "map_of (map (\<lambda>kv. if fst kv = keyChecks then (fst kv, dropStrategies (snd kv)) else kv) m)
          keyChecks = map_option dropStrategies (map_of m keyChecks)" for m
    by (induction m) auto
  then show ?thesis
    by (simp add: withoutStrategy_def rawGet_def split: option.splits)
qed

lemma validate_withoutStrategy:
  "validateHorizontalPolicy (withoutStrategy p) = validateHorizontalPolicy p"
proof -
  have "sp_Min (withoutStrategy p) = sp_Min p" "sp_Max (withoutStrategy p) = sp_Max p"
    by (simp_all add: withoutStrategy_def)
  then show ?thesis
    by (simp add: validateHorizontalPolicy_def rawGet_withoutStrategy validateBlocks_drop
             split: option.splits)
qed


lemma validateLabeled_shape:
  assumes "validateLabeledBlocks m path mn mx validateCheckHorizontal = []"
    and "kv \<in> set m"
  shows "parseBlock (snd kv) \<noteq> None"
proof
  assume n: "parseBlock (snd kv) = None"
  from assms(1) have "\<forall>kv \<in> set m. (case parseBlock (snd kv) of None \<Rightarrow> [Shape path]
      | Some block \<Rightarrow> validateCheckHorizontal block path) = []"
    by (simp add: validateLabeledBlocks_def)
  with assms(2) n show False by fastforce
qed

lemma blocksOfMap_entries:
  "(\<And>kv. kv \<in> set m \<Longrightarrow> parseBlock (snd kv) \<noteq> None) \<Longrightarrow>
     list_all2 (\<lambda>kb kv. fst kb = fst kv \<and> parseBlock (snd kv) = Some (snd kb))
       (blocksOfMap m) m"
proof (induction m)
  case Nil
  then show ?case by simp
next
  case (Cons kv m)
  obtain k v where kv: "kv = (k, v)" by (cases kv)
  from Cons.prems [of kv] kv obtain b where b: "parseBlock v = Some b" by auto
  from Cons.prems have "list_all2 (\<lambda>kb kv. fst kb = fst kv \<and> parseBlock (snd kv) = Some (snd kb))
       (blocksOfMap m) m"
    by (intro Cons.IH) simp
  with kv b show ?case by simp
qed

lemma blocksOfList_entries:
  "(\<And>e. e \<in> set xs \<Longrightarrow>
       (case e of RMap m \<Rightarrow> validateChecksHorizontal m path | _ \<Rightarrow> [Shape path]) = []) \<Longrightarrow>
     list_all2 (\<lambda>kb kv. fst kb = fst kv \<and> parseBlock (snd kv) = Some (snd kb))
       (blocksOfList xs) (entriesOfList xs)"
proof (induction xs)
  case Nil
  then show ?case by simp
next
  case (Cons e xs)
  from Cons.prems have rest: "list_all2 (\<lambda>kb kv. fst kb = fst kv \<and> parseBlock (snd kv) = Some (snd kb))
       (blocksOfList xs) (entriesOfList xs)"
    by (intro Cons.IH) simp
  from Cons.prems [of e] obtain m where m: "e = RMap m"
    "validateLabeledBlocks m path (Some 1) None validateCheckHorizontal = []"
    by (cases e) (simp_all add: validateChecksHorizontal_def)
  from m(2) have "list_all2 (\<lambda>kb kv. fst kb = fst kv \<and> parseBlock (snd kv) = Some (snd kb))
       (blocksOfMap m) m"
    by (intro blocksOfMap_entries) (rule validateLabeled_shape)
  with rest m(1) show ?case by (simp add: list_all2_appendI)
qed

lemma checkBlocks_entries:
  assumes "validateBlocks r path validateChecksHorizontal = []"
  shows "list_all2 (\<lambda>kb kv. fst kb = fst kv \<and> parseBlock (snd kv) = Some (snd kb))
           (checkBlocks r) (checkEntries r)"
proof (cases r)
  case (RList xs)
  from assms RList have "\<forall>e \<in> set xs.
      (case e of RMap m \<Rightarrow> validateChecksHorizontal m path | _ \<Rightarrow> [Shape path]) = []"
    by simp
  then have "list_all2 (\<lambda>kb kv. fst kb = fst kv \<and> parseBlock (snd kv) = Some (snd kb))
       (blocksOfList xs) (entriesOfList xs)"
    by (intro blocksOfList_entries) blast
  with RList show ?thesis by simp
qed (use assms in simp_all)

lemma parseStrategy_block:
  "(parseStrategy v \<noteq> None \<longleftrightarrow> parseBlock v \<noteq> None)
   \<and> (\<forall>sm. parseBlock v = Some sm \<longrightarrow>
         (\<exists>s. parseStrategy v = Some s
            \<and> strategy_Name s = stringOrEmpty (rawGet sm ''name'')))"
  by (auto simp: parseStrategy_def Let_def split: option.splits)

lemma blocksOfMap_drop:
  "blocksOfMap (map (\<lambda>kv. (fst kv, dropStrategyBlock (snd kv))) m)
     = map (\<lambda>kb. (fst kb, filter (\<lambda>kv. fst kv \<noteq> keyStrategy) (snd kb))) (blocksOfMap m)"
  by (induction m rule: blocksOfMap.induct)
     (simp_all add: parseBlock_dropStrategyBlock split: option.splits)

lemma blocksOfList_drop:
  "blocksOfList (map dropStrategyElem xs)
     = map (\<lambda>kb. (fst kb, filter (\<lambda>kv. fst kv \<noteq> keyStrategy) (snd kb))) (blocksOfList xs)"
  by (induction xs rule: blocksOfList.induct) (simp_all add: blocksOfMap_drop)

lemma checkBlocks_drop:
  "checkBlocks (dropStrategies r)
     = map (\<lambda>kb. (fst kb, filter (\<lambda>kv. fst kv \<noteq> keyStrategy) (snd kb))) (checkBlocks r)"
  by (cases r) (simp_all add: blocksOfList_drop)

lemma checkOfBlock_drop:
  "checkOfBlock (k, filter (\<lambda>kv. fst kv \<noteq> keyStrategy) b) = (checkOfBlock (k, b))\<lparr>Strategy := None\<rparr>"
  by (simp add: checkOfBlock_def rawGet_def map_of_filter_other map_of_filter_same key_distinct
                parseStrategy_def)

lemma Checks_withoutStrategy:
  "Checks (parsePolicy pd (withoutStrategy p))
     = map (\<lambda>c. c\<lparr>Strategy := None\<rparr>) (Checks (parsePolicy pd p))"
  by (simp add: Checks_parsePolicy rawGet_withoutStrategy checkBlocks_drop comp_def
                checkOfBlock_drop)

text \<open>
  C4, amended.  For every raw document that passes the validation
  (\<open>validateHorizontalPolicy\<close> returns nil), the parsed Checks are, in order, one Check for
  every check entry of the document: the entry is a block, the Check carries the entry's
  label, and its \<open>Strategy\<close> is non-nil exactly when the entry's \<open>strategy\<close> value is a
  block (a list of exactly one map); its \<open>Name\<close> is then the string stored under
  \<open>name\<close> in that block, and empty when there is no string there.
  \<open>validateHorizontalPolicy\<close> does not look at the \<open>strategy\<close> key: the document with
  the \<open>strategy\<close> key deleted from every check entry passes the validation as well, and
  it parses to the same Checks with every \<open>Strategy\<close> nil.
\<close>

theorem validated_strategy:
  assumes "validateHorizontalPolicy p = []"
  shows "list_all2
           (\<lambda>c kv. \<exists>b. parseBlock (snd kv) = Some b
              \<and> Name c = fst kv
              \<and> (Strategy c \<noteq> None \<longleftrightarrow> parseBlock (rawGet b keyStrategy) \<noteq> None)
              \<and> (\<forall>sm. parseBlock (rawGet b keyStrategy) = Some sm \<longrightarrow>
                    (\<exists>s. Strategy c = Some s
                       \<and> strategy_Name s = stringOrEmpty (rawGet sm ''name''))))
           (Checks (parsePolicy pd p)) (checkEntries (rawGet (sp_Policy p) keyChecks))
     \<and> validateHorizontalPolicy (withoutStrategy p) = []
     \<and> Checks (parsePolicy pd (withoutStrategy p))
         = map (\<lambda>c. c\<lparr>Strategy := None\<rparr>) (Checks (parsePolicy pd p))"
proof -
  let ?r = "rawGet (sp_Policy p) keyChecks"
  from assms have "validateBlocks ?r (''scaling.policy.'' @ keyChecks) validateChecksHorizontal = []"
    by (simp add: validateHorizontalPolicy_nil)
  then have "list_all2 (\<lambda>kb kv. fst kb = fst kv \<and> parseBlock (snd kv) = Some (snd kb))
           (checkBlocks ?r) (checkEntries ?r)"
    by (rule checkBlocks_entries)
  then have "list_all2
           (\<lambda>c kv. \<exists>b. parseBlock (snd kv) = Some b
              \<and> Name c = fst kv
              \<and> (Strategy c \<noteq> None \<longleftrightarrow> parseBlock (rawGet b keyStrategy) \<noteq> None)
              \<and> (\<forall>sm. parseBlock (rawGet b keyStrategy) = Some sm \<longrightarrow>
                    (\<exists>s. Strategy c = Some s
                       \<and> strategy_Name s = stringOrEmpty (rawGet sm ''name''))))
           (map checkOfBlock (checkBlocks ?r)) (checkEntries ?r)"
    unfolding list_all2_map1
  proof (rule list_all2_mono)
    fix kb :: "string \<times> rawmap" and kv :: "string \<times> raw"
    assume "fst kb = fst kv \<and> parseBlock (snd kv) = Some (snd kb)"
    then show "\<exists>b. parseBlock (snd kv) = Some b
              \<and> Name (checkOfBlock kb) = fst kv
              \<and> (Strategy (checkOfBlock kb) \<noteq> None \<longleftrightarrow> parseBlock (rawGet b keyStrategy) \<noteq> None)
              \<and> (\<forall>sm. parseBlock (rawGet b keyStrategy) = Some sm \<longrightarrow>
                    (\<exists>s. Strategy (checkOfBlock kb) = Some s
                       \<and> strategy_Name s = stringOrEmpty (rawGet sm ''name'')))"
      using parseStrategy_block [of "rawGet (snd kb) keyStrategy"]
      by (intro exI [of _ "snd kb"]) (simp add: checkOfBlock_def)
  qed
  moreover from assms have "validateHorizontalPolicy (withoutStrategy p) = []"
    by (simp add: validate_withoutStrategy)
  ultimately show ?thesis
    by (simp add: Checks_parsePolicy [of pd p] Checks_withoutStrategy)
qed

text \<open>
  Witness for C4: the document whose check has a query and a well-formed strategy block
  named \<open>target-value\<close> passes the validation, and the parsed check carries that
  strategy; with the strategy deleted it still passes, and the parsed check has a nil
  \<open>Strategy\<close>.
\<close>

theorem validated_strategy_witness:
  "validateHorizontalPolicy
     (document (Some 1) (Some 2) [(keyQuery, RStr ''avg_cpu''), (keyStrategy, strategyBlock)]) = []
   \<and> map Strategy (Checks (parsePolicy noDuration
        (document (Some 1) (Some 2) [(keyQuery, RStr ''avg_cpu''), (keyStrategy, strategyBlock)])))
       = [Some \<lparr>strategy_Name = ''target-value'', strategy_Config = None\<rparr>]
   \<and> validateHorizontalPolicy (withoutStrategy
        (document (Some 1) (Some 2) [(keyQuery, RStr ''avg_cpu''), (keyStrategy, strategyBlock)])) = []
   \<and> map Strategy (Checks (parsePolicy noDuration (withoutStrategy
        (document (Some 1) (Some 2) [(keyQuery, RStr ''avg_cpu''), (keyStrategy, strategyBlock)]))))
       = [None]"
proof -
  let ?d = "document (Some 1) (Some 2) [(keyQuery, RStr ''avg_cpu''), (keyStrategy, strategyBlock)]"
  have h: "validateHorizontalPolicy ?d = []"
    by (simp add: document_defs key_defs)
  have s: "map Strategy (Checks (parsePolicy noDuration ?d))
             = [Some \<lparr>strategy_Name = ''target-value'', strategy_Config = None\<rparr>]"
    by (simp add: document_defs key_defs)
  from validated_strategy [OF h, of noDuration]
  have w: "validateHorizontalPolicy (withoutStrategy ?d) = []"
    "Checks (parsePolicy noDuration (withoutStrategy ?d))
       = map (\<lambda>c. c\<lparr>Strategy := None\<rparr>) (Checks (parsePolicy noDuration ?d))"
    by simp_all
  from s have "length (Checks (parsePolicy noDuration ?d)) = 1"
    by (metis length_map length_Cons list.size(3) One_nat_def)
  then obtain c where "Checks (parsePolicy noDuration ?d) = [c]"
    by (cases "Checks (parsePolicy noDuration ?d)") auto
  with w(2) have "map Strategy (Checks (parsePolicy noDuration (withoutStrategy ?d))) = [None]"
    by simp
  with h s w(1) show ?thesis by blast
qed

subsection \<open>The configuration of a target\<close>

lemma putAll_Nil: "putAll f [] cfg = cfg"
  by (simp add: putAll_def)

lemma putAll_Cons: "putAll f (kv # m) cfg = putAll f m (cfg(fst kv \<mapsto> f (snd kv)))"
  by (simp add: putAll_def)

lemma putAll_lookup:
  "distinct (map fst m) \<Longrightarrow>
     putAll f m cfg k = (case map_of m k of None \<Rightarrow> cfg k | Some v \<Rightarrow> Some (f v))"
proof (induction m arbitrary: cfg)
  case Nil
  then show ?case by (simp add: putAll_Nil)
next
  case (Cons kv m)
  obtain k' v' where kv: "kv = (k', v')" by (cases kv)
  from Cons.prems kv have d: "distinct (map fst m)" and notin: "k' \<notin> fst ` set m" by auto
  from notin have "map_of m k' = None" by (simp add: map_of_eq_None_iff)
  with Cons.IH [OF d] kv show ?case
    by (auto simp: putAll_Cons split: option.splits)
qed

lemma parseTarget_config:
  "parseTarget tb ta =
     (if parseBlock tb = None \<and> ta = None then None
      else Some \<lparr>target_Name =
                   stringOrEmpty (rawGet (case parseBlock tb of None \<Rightarrow> [] | Some tm \<Rightarrow> tm) ''name''),
                 target_Config =
                   Some (putAll fmtV (targetBlockConfig tb) (putAll id (attrConfig ta) Map.empty))\<rparr>)"
  by (simp add: parseTarget_def targetBlockConfig_def attrConfig_def Let_def putAll_Nil
           split: option.splits)

text \<open>
  C6.  \<open>parseTarget\<close> returns nil only when there is neither a target block nor an
  attribute map.  Otherwise (the two maps having distinct keys, as Go maps have) the keys
  of the resulting \<open>Config\<close> are exactly the keys of the attribute map together with the
  keys of the nested \<open>target.config\<close> block; every key of the block maps to the
  stringified value of the block, also when the attribute map has the key; and every other
  key of the attribute map keeps its value.
\<close>

theorem parseTarget_merge:
  assumes da: "distinct (map fst (attrConfig ta))"
    and db: "distinct (map fst (targetBlockConfig tb))"
  shows "(parseTarget tb ta = None \<longleftrightarrow> parseBlock tb = None \<and> ta = None)
     \<and> (\<forall>t. parseTarget tb ta = Some t \<longrightarrow>
          (\<exists>cfg. target_Config t = Some cfg
             \<and> dom cfg = fst ` set (attrConfig ta) \<union> fst ` set (targetBlockConfig tb)
             \<and> (\<forall>(k, v) \<in> set (targetBlockConfig tb). cfg k = Some (fmtV v))
             \<and> (\<forall>(k, v) \<in> set (attrConfig ta).
                   k \<notin> fst ` set (targetBlockConfig tb) \<longrightarrow> cfg k = Some v)))"
proof -
  let ?cfg = "putAll fmtV (targetBlockConfig tb) (putAll id (attrConfig ta) Map.empty)"
  have look: "?cfg k = (case map_of (targetBlockConfig tb) k of
                 None \<Rightarrow> map_of (attrConfig ta) k
               | Some v \<Rightarrow> Some (fmtV v))" for k
    by (simp add: putAll_lookup [OF db] putAll_lookup [OF da] split: option.splits)
  have dom: "dom ?cfg = fst ` set (attrConfig ta) \<union> fst ` set (targetBlockConfig tb)"
  proof (rule set_eqI)
    fix k
    have "?cfg k \<noteq> None \<longleftrightarrow>
            map_of (targetBlockConfig tb) k \<noteq> None \<or> map_of (attrConfig ta) k \<noteq> None"
      by (simp add: look split: option.splits)
    then show "k \<in> dom ?cfg \<longleftrightarrow>
        k \<in> fst ` set (attrConfig ta) \<union> fst ` set (targetBlockConfig tb)"
      unfolding domIff map_of_eq_None_iff by blast
  qed
  have blk: "?cfg k = Some (fmtV v)" if "(k, v) \<in> set (targetBlockConfig tb)" for k v
    using that db by (simp add: look)
  have att: "?cfg k = Some v"
    if "(k, v) \<in> set (attrConfig ta)" "k \<notin> fst ` set (targetBlockConfig tb)" for k v
  proof -
    from that(2) have "map_of (targetBlockConfig tb) k = None"
      by (simp add: map_of_eq_None_iff)
    with that(1) da show ?thesis by (simp add: look)
  qed
  show ?thesis
    using dom blk att by (auto simp: parseTarget_config)
qed

text \<open>
  Witness for C6, the example of the claim: the attribute map \<open>{a: "1", b: "2"}\<close>
  merged with the block \<open>{b: "3", c: "4"}\<close> is \<open>{a: "1", b: "3", c: "4"}\<close>.
\<close>

theorem parseTarget_merge_witness:
  "distinct (map fst (attrConfig (Some [(''a'', ''1''), (''b'', ''2'')])))
   \<and> distinct (map fst (targetBlockConfig
        (RList [RMap [(''config'', RList [RMap [(''b'', RStr ''3''), (''c'', RStr ''4'')]])]])))
   \<and> parseTarget
        (RList [RMap [(''config'', RList [RMap [(''b'', RStr ''3''), (''c'', RStr ''4'')]])]])
        (Some [(''a'', ''1''), (''b'', ''2'')])
       = Some \<lparr>target_Name = [],
               target_Config = Some [''a'' \<mapsto> ''1'', ''b'' \<mapsto> ''3'', ''c'' \<mapsto> ''4'']\<rparr>"
proof -
  let ?tb = "RList [RMap [(''config'', RList [RMap [(''b'', RStr ''3''), (''c'', RStr ''4'')]])]]"
  let ?ta = "Some [(''a'', ''1''), (''b'', ''2'')]"
  have bc: "targetBlockConfig ?tb = [(''b'', RStr ''3''), (''c'', RStr ''4'')]"
    by (simp add: targetBlockConfig_def rawGet_def)
  have ac: "attrConfig ?ta = [(''a'', ''1''), (''b'', ''2'')]"
    by (simp add: attrConfig_def)
  have h: "distinct (map fst (attrConfig ?ta))" "distinct (map fst (targetBlockConfig ?tb))"
    by (simp_all add: bc ac)
  obtain t where t: "parseTarget ?tb ?ta = Some t"
    using parseTarget_merge [OF h] by (cases "parseTarget ?tb ?ta") auto
  with parseTarget_merge [OF h] obtain cfg where cfg: "target_Config t = Some cfg"
    "dom cfg = {''a'', ''b'', ''c''}" "cfg ''b'' = Some ''3''" "cfg ''c'' = Some ''4''"
    "cfg ''a'' = Some ''1''"
    by (auto simp: bc ac)
  have "cfg = [''a'' \<mapsto> ''1'', ''b'' \<mapsto> ''3'', ''c'' \<mapsto> ''4'']"
  proof (rule ext)
    fix k
    show "cfg k = [''a'' \<mapsto> ''1'', ''b'' \<mapsto> ''3'', ''c'' \<mapsto> ''4''] k"
    proof (cases "k \<in> {''a'', ''b'', ''c''}")
      case True
      with cfg show ?thesis by auto
    next
      case False
      with cfg(2) have "k \<notin> dom cfg" by blast
      then have "cfg k = None" by (simp add: domIff)
      with False show ?thesis by simp
    qed
  qed
  moreover have "target_Name t = []"
    using t by (simp add: parseTarget_config rawGet_def stringOrEmpty_def split: if_splits) auto
  ultimately have "t = \<lparr>target_Name = [], target_Config = Some [''a'' \<mapsto> ''1'', ''b'' \<mapsto> ''3'', ''c'' \<mapsto> ''4'']\<rparr>"
    using cfg(1) by (cases t) simp
  with t h show ?thesis by simp
qed

section \<open>The evaluation of one check\<close>

text \<open>
  When every plugin call succeeds and the target is ready, \<open>handlePolicyCheck\<close> returns
  \<open>minMaxActions\<close> of what the strategy returned.
\<close>

lemma handlePolicyCheck_success:
  assumes "Target p = Some tgt" and "Strategy c = Some strat"
    and "pm (target_Name tgt) PluginTypeTarget = Inr (TargetInst status scale)"
    and "pm (Source c) PluginTypeAPM = Inr (APMInst query)"
    and "pm (strategy_Name strat) PluginTypeStrategy = Inr (StrategyInst run)"
    and "status (target_Config tgt) = Inr st" and "status_Ready st"
    and "query (Query c) = Inr val"
    and "run \<lparr>req_PolicyID = ID p, req_Count = status_Count st, req_Metric = val,
              req_Config = strategy_Config strat\<rparr> = Inr actions"
  shows "handlePolicyCheck pm p c = Inr (minMaxActions p (status_Count st) actions)"
  using assms by (simp add: handlePolicyCheck_def)

text \<open>
  C1 does not hold of the code.  At a concrete evaluation (policy \<open>Min = 2\<close>,
  \<open>Max = 10\<close>, target configuration \<open>dry-run: "true"\<close>, current count 5, strategy
  returning one action with count 15 and a nil \<open>Meta\<close>), \<open>handlePolicyCheck\<close> returns
  the strategy's action exactly as it came: not canonicalized (\<open>Meta\<close> is nil), not
  capped (15 is above \<open>Max\<close>), not in dry-run form; the iteration of \<open>Run\<close> collects
  that same action and ends.  The shaping that the claim describes would have given the
  count \<open>-1\<close>.
\<close>

theorem handlePolicyCheck_returns_unshaped:
  "handlePolicyCheck (stubManager 5 [action15]) policy0 check0 = Inr [action15]
   \<and> runIteration (stubManager 5 [action15]) (Some \<lparr>eval_Policy = Some policy0\<rparr>)
       = Inr [action15]
   \<and> Count action15 = 15 \<and> policy_Max policy0 = 10 \<and> Meta action15 = None
   \<and> countOf (spec_shapeAction policy0 target0 action15) = Some (- 1)"
  by (simp add: runIteration_def agent_defs spec_shapeAction_def action_defs)

text \<open>
  C5.  For every evaluation of one check that reaches the strategy (the policy has a
  target and the check a strategy, the three plugins are dispensed, the target reports a
  status and is ready, the APM answers) and in which the strategy returns zero actions:
  if the current count is below \<open>Min\<close>, the result is exactly one action with
  \<open>Count = Min\<close> and the reason "current count (n) below limit (Min)"; else if it is
  above \<open>Max\<close>, exactly one action with \<open>Count = Max\<close> and the reason "current count
  (n) above limit (Max)"; otherwise no action.
\<close>

theorem handlePolicyCheck_no_actions:
  assumes "Target p = Some tgt" and "Strategy c = Some strat"
    and "pm (target_Name tgt) PluginTypeTarget = Inr (TargetInst status scale)"
    and "pm (Source c) PluginTypeAPM = Inr (APMInst query)"
    and "pm (strategy_Name strat) PluginTypeStrategy = Inr (StrategyInst run)"
    and "status (target_Config tgt) = Inr st" and "status_Ready st"
    and "query (Query c) = Inr val"
    and "run \<lparr>req_PolicyID = ID p, req_Count = status_Count st, req_Metric = val,
              req_Config = strategy_Config strat\<rparr> = Inr []"
  shows "handlePolicyCheck pm p c =
     Inr (if status_Count st < policy_Min p then
            [\<lparr>Count = policy_Min p,
              Reason = ''current count ('' @ fmtInt (status_Count st) @ '') below limit (''
                         @ fmtInt (policy_Min p) @ '')'',
              Error = False, Meta = None\<rparr>]
          else if policy_Max p < status_Count st then
            [\<lparr>Count = policy_Max p,
              Reason = ''current count ('' @ fmtInt (status_Count st) @ '') above limit (''
                         @ fmtInt (policy_Max p) @ '')'',
              Error = False, Meta = None\<rparr>]
          else [])"
  using handlePolicyCheck_success [OF assms]
  by (simp add: minMaxActions_def belowLimitReason_def aboveLimitReason_def)

text \<open>
  Witness for C5, the scenario of the specification: \<open>Min = 2\<close>, \<open>Max = 10\<close>, current
  count 1, no action from the strategy; the result is one action with count 2.
\<close>

theorem handlePolicyCheck_no_actions_witness:
  "handlePolicyCheck (stubManager 1 []) policy0 check0 =
     Inr [\<lparr>Count = 2, Reason = ''current count (1) below limit (2)'',
           Error = False, Meta = None\<rparr>]"
  using handlePolicyCheck_no_actions [of policy0 target0 check0 strategy0 "stubManager 1 []"
      "\<lambda>cfg. Inr \<lparr>status_Ready = True, status_Count = 1\<rparr>" "\<lambda>a cfg. None"
      "\<lambda>q. Inr 0" "\<lambda>req. Inr []" "\<lparr>status_Ready = True, status_Count = 1\<rparr>" 0]
  by (simp add: policy0_def check0_def target0_def strategy0_def stubManager_def
                fmtInt_1 fmtInt_2)

end
